theory Spec2Isabelle
  imports Main
begin

section \<open>Python string primitives used by the scripts\<close>

text \<open>
  A Python \<open>str\<close> is modelled as a \<open>string\<close> (a list of 8-bit characters, read as the
  code points below 256). Indices are Python integers, so \<open>rfind\<close> returns \<open>-1\<close>
  when the character does not occur, and slices accept negative bounds, which count
  from the end and are clipped to the string.
\<close>

fun rfind :: "char \<Rightarrow> string \<Rightarrow> int" where
  "rfind c [] = - 1"
| "rfind c (x # xs) =
     (let r = rfind c xs in if 0 \<le> r then r + 1 else if x = c then 0 else - 1)"

definition slice_index :: "int \<Rightarrow> string \<Rightarrow> nat" where
  "slice_index i s = (if i < 0 then nat (i + int (length s)) else nat i)"

definition slice_to :: "string \<Rightarrow> int \<Rightarrow> string" where
  \<comment> \<open>\<open>s[:i]\<close>\<close>
  "slice_to s i = take (slice_index i s) s"

definition slice_from :: "string \<Rightarrow> int \<Rightarrow> string" where
  \<comment> \<open>\<open>s[i:]\<close>\<close>
  "slice_from s i = drop (slice_index i s) s"

definition slice :: "string \<Rightarrow> int \<Rightarrow> int \<Rightarrow> string" where
  \<comment> \<open>\<open>s[i:j]\<close>\<close>
  "slice s i j = drop (slice_index i s) (take (slice_index j s) s)"

definition rstrip_chr :: "char \<Rightarrow> string \<Rightarrow> string" where
  \<comment> \<open>\<open>s.rstrip(c)\<close> for a one-character argument\<close>
  "rstrip_chr c s = rev (dropWhile (\<lambda>x. x = c) (rev s))"

definition startswith :: "string \<Rightarrow> char \<Rightarrow> bool" where
  "startswith s c = (case s of [] \<Rightarrow> False | x # _ \<Rightarrow> x = c)"

definition endswith :: "string \<Rightarrow> char \<Rightarrow> bool" where
  "endswith s c = (case rev s of [] \<Rightarrow> False | x # _ \<Rightarrow> x = c)"

section \<open>The \<open>os.path\<close> functions of a POSIX host\<close>

text \<open>
  The scripts call \<open>os.path.dirname\<close>, \<open>basename\<close>, \<open>splitext\<close> and \<open>join\<close>. On a
  POSIX host \<open>os.path\<close> is the standard library's \<open>posixpath\<close>; the definitions below
  follow its text (and \<open>genericpath._splitext\<close>), with \<open>sep = '/'\<close> and
  \<open>extsep = '.'\<close>.
\<close>

definition sep :: char where
  "sep = CHR ''/''"

definition extsep :: char where
  "extsep = CHR ''.''"

definition dirname :: "string \<Rightarrow> string" where
  "dirname p =
     (let i = rfind sep p + 1;
          head = slice_to p i
      in if head \<noteq> [] \<and> head \<noteq> replicate (length head) sep
         then rstrip_chr sep head else head)"

definition basename :: "string \<Rightarrow> string" where
  "basename p = (let i = rfind sep p + 1 in slice_from p i)"

text \<open>
  The loop of \<open>_splitext\<close> that skips the leading dots of the file name: it returns
  the split at \<open>dotIndex\<close> as soon as it meets a character that is not a dot, and
  falls through to \<open>(p, p[:0])\<close> when there is none.
\<close>

function skip_dots :: "string \<Rightarrow> int \<Rightarrow> int \<Rightarrow> string \<times> string" where
  "skip_dots p filenameIndex dotIndex =
     (if filenameIndex < dotIndex
      then (if slice p filenameIndex (filenameIndex + 1) \<noteq> [extsep]
            then (slice_to p dotIndex, slice_from p dotIndex)
            else skip_dots p (filenameIndex + 1) dotIndex)
      else (p, slice_to p 0))"
  by pat_completeness auto
termination
  by (relation "measure (\<lambda>(p, f, d). nat (d - f))") auto

declare skip_dots.simps [simp del]

definition splitext :: "string \<Rightarrow> string \<times> string" where
  "splitext p =
     (let sepIndex = rfind sep p;
          dotIndex = rfind extsep p
      in if dotIndex > sepIndex
         then skip_dots p (sepIndex + 1) dotIndex
         else (p, slice_to p 0))"

definition join :: "string \<Rightarrow> string \<Rightarrow> string" where
  \<comment> \<open>\<open>os.path.join(a, b)\<close> with one component \<open>b\<close>\<close>
  "join a b =
     (if startswith b sep then b
      else if a = [] \<or> endswith a sep then a @ b
      else a @ [sep] @ b)"

section \<open>Deriving the output path\<close>

text \<open>
  Step 2 of each script. \<open>video_repair.py\<close> and \<open>1.py\<close> insert \<open>_noncorrupt\<close>
  before the extension, \<open>3.py\<close> appends \<open>_noncorrupt.mp4\<close> to the name without its
  extension, and \<open>4.py\<close> inserts \<open>.fixed\<close> before the extension.
\<close>

definition output_path_noncorrupt :: "string \<Rightarrow> string" where
  "output_path_noncorrupt input_path =
     (let directory = dirname input_path;
          (filename_without_ext, extension) = splitext (basename input_path);
          output_filename = filename_without_ext @ ''_noncorrupt'' @ extension
      in join directory output_filename)"

definition output_path_forced_mp4 :: "string \<Rightarrow> string" where
  "output_path_forced_mp4 input_path =
     (let directory = dirname input_path;
          (filename_without_ext, extension) = splitext (basename input_path);
          output_filename = filename_without_ext @ ''_noncorrupt.mp4''
      in join directory output_filename)"

definition output_path_fixed :: "string \<Rightarrow> string" where
  "output_path_fixed corrupt_path =
     (let directory = dirname corrupt_path;
          (filename, ext) = splitext (basename corrupt_path);
          output_filename = filename @ ''.fixed'' @ ext
      in join directory output_filename)"

section \<open>The argument lists\<close>

text \<open>Step 3 of each script: the list handed to \<open>subprocess\<close>, program name first.\<close>

definition command_remux :: "string \<Rightarrow> string \<Rightarrow> string list" where
  \<comment> \<open>\<open>video_repair.py\<close>\<close>
  "command_remux input_path output_path =
     [''ffmpeg'',
      ''-i'', input_path,
      ''-c'', ''copy'',
      ''-movflags'', ''faststart'',
      ''-y'',
      output_path]"

definition command_reencode :: "string \<Rightarrow> string \<Rightarrow> string list" where
  \<comment> \<open>\<open>1.py\<close>\<close>
  "command_reencode input_path output_path =
     [''ffmpeg'',
      ''-i'', input_path,
      ''-c:v'', ''libx264'',
      ''-preset'', ''medium'',
      ''-crf'', ''23'',
      ''-c:a'', ''aac'',
      ''-b:a'', ''128k'',
      ''-movflags'', ''faststart'',
      ''-y'',
      output_path]"

definition command_forced :: "string \<Rightarrow> string \<Rightarrow> string list" where
  \<comment> \<open>\<open>3.py\<close>\<close>
  "command_forced input_path output_path =
     [''ffmpeg'',
      ''-f'', ''h264'',
      ''-err_detect'', ''aggressive'',
      ''-i'', input_path,
      ''-c:v'', ''libx264'',
      ''-preset'', ''medium'',
      ''-crf'', ''23'',
      ''-c:a'', ''aac'',
      ''-b:a'', ''128k'',
      ''-movflags'', ''faststart'',
      ''-y'',
      output_path]"

definition command_copy :: "string \<Rightarrow> string \<Rightarrow> string list" where
  \<comment> \<open>\<open>4.py\<close>\<close>
  "command_copy corrupt_path output_path =
     [''ffmpeg'',
      ''-i'', corrupt_path,
      ''-c'', ''copy'',
      output_path]"

section \<open>The environment of a run\<close>

text \<open>
  What a script can observe of its environment: the file system, as the size in bytes
  of whatever exists at a path (\<open>os.path.exists\<close>, \<open>os.path.getsize\<close>), and the
  \<open>ffmpeg\<close> binary on the search path. The binary is \<open>None\<close> when it cannot be
  resolved, which makes \<open>subprocess\<close> raise \<open>FileNotFoundError\<close>. A resolved tool
  is a function of its argument list and the file system: either the child runs to its
  end, leaving a return code, the lines of its standard error and a new file system, or
  the interaction raises some other exception (a decoding error on the child's output,
  a permission error at spawn).
\<close>

type_synonym filesystem = "string \<rightharpoonup> nat"

datatype run_result =
    Exited int "string list" filesystem
  | Raised filesystem

type_synonym tool = "string list \<Rightarrow> filesystem \<Rightarrow> run_result"

record world =
  files :: filesystem
  ffmpeg :: "tool option"

definition exists_path :: "filesystem \<Rightarrow> string \<Rightarrow> bool" where
  \<comment> \<open>\<open>os.path.exists\<close>\<close>
  "exists_path fs p = (fs p \<noteq> None)"

definition getsize :: "filesystem \<Rightarrow> string \<Rightarrow> nat option" where
  \<comment> \<open>\<open>os.path.getsize\<close>; \<open>None\<close> stands for the \<open>OSError\<close> on a missing path\<close>
  "getsize fs p = fs p"

text \<open>
  The scripts report through printed banners. Each banner is one outcome:
  \<open>InputNotFound\<close> for "The file ... was not found", \<open>IdenticalPaths\<close> for "Input and
  output paths are identical", \<open>Succeeded\<close> for the success banner, \<open>Failed rc\<close> for
  "FFmpeg failed ... (Return Code: rc)", \<open>ToolNotFound\<close> for "CRITICAL ERROR: FFmpeg
  command not found" and \<open>Unexpected\<close> for "An unexpected error occurred". A report
  also records the argument lists handed to \<open>subprocess\<close>, the lines of the child's
  standard error written to the caller's, and the file system at the end.
\<close>

datatype outcome =
    InputNotFound
  | IdenticalPaths
  | Succeeded
  | Failed int
  | ToolNotFound
  | Unexpected

record report =
  outcome :: outcome
  invoked :: "string list list"
  relayed :: "string list"
  files_after :: filesystem

section \<open>Running the tool\<close>

text \<open>
  Step 4 of \<open>video_repair.py\<close>, \<open>1.py\<close> and \<open>3.py\<close>: \<open>Popen\<close>, the loop over the
  child's standard error, \<open>wait\<close>, and the test of the return code alone.
\<close>

definition popen_and_report :: "world \<Rightarrow> string list \<Rightarrow> report" where
  "popen_and_report w command =
     (case ffmpeg w of
        None \<Rightarrow>
          \<lparr>outcome = ToolNotFound, invoked = [command], relayed = [],
           files_after = files w\<rparr>
      | Some process \<Rightarrow>
          (case process command (files w) of
             Raised fs' \<Rightarrow>
               \<lparr>outcome = Unexpected, invoked = [command], relayed = [],
                files_after = fs'\<rparr>
           | Exited returncode stderr_lines fs' \<Rightarrow>
               \<lparr>outcome = (if returncode = 0 then Succeeded else Failed returncode),
                invoked = [command], relayed = stderr_lines, files_after = fs'\<rparr>))"

text \<open>
  Step 4 of \<open>4.py\<close>: \<open>subprocess.run\<close>, then success only when the return code is
  zero and the output exists and is not empty (\<open>and\<close> evaluates left to right and
  stops at the first false operand).
\<close>

definition run_and_report :: "world \<Rightarrow> string list \<Rightarrow> string \<Rightarrow> report" where
  "run_and_report w command output_path =
     (case ffmpeg w of
        None \<Rightarrow>
          \<lparr>outcome = ToolNotFound, invoked = [command], relayed = [],
           files_after = files w\<rparr>
      | Some process \<Rightarrow>
          (case process command (files w) of
             Raised fs' \<Rightarrow>
               \<lparr>outcome = Unexpected, invoked = [command], relayed = [],
                files_after = fs'\<rparr>
           | Exited returncode stderr_lines fs' \<Rightarrow>
               \<lparr>outcome =
                  (if returncode = 0
                   then (if exists_path fs' output_path
                         then (case getsize fs' output_path of
                                 None \<Rightarrow> Unexpected
                               | Some bytes \<Rightarrow>
                                   if bytes > 0 then Succeeded else Failed returncode)
                         else Failed returncode)
                   else Failed returncode),
                invoked = [command], relayed = stderr_lines, files_after = fs'\<rparr>))"

section \<open>The four scripts\<close>

definition not_found :: "world \<Rightarrow> report" where
  "not_found w =
     \<lparr>outcome = InputNotFound, invoked = [], relayed = [], files_after = files w\<rparr>"

definition repair_video :: "world \<Rightarrow> string \<Rightarrow> report" where
  \<comment> \<open>\<open>video_repair.py\<close>\<close>
  "repair_video w input_path =
     (if \<not> exists_path (files w) input_path then not_found w
      else let output_path = output_path_noncorrupt input_path;
               command = command_remux input_path output_path
           in popen_and_report w command)"

definition repair_video_1 :: "world \<Rightarrow> string \<Rightarrow> report" where
  \<comment> \<open>\<open>1.py\<close>\<close>
  "repair_video_1 w input_path =
     (if \<not> exists_path (files w) input_path then not_found w
      else let output_path = output_path_noncorrupt input_path;
               command = command_reencode input_path output_path
           in popen_and_report w command)"

definition repair_video_3 :: "world \<Rightarrow> string \<Rightarrow> report" where
  \<comment> \<open>\<open>3.py\<close>\<close>
  "repair_video_3 w input_path =
     (if \<not> exists_path (files w) input_path then not_found w
      else let output_path = output_path_forced_mp4 input_path;
               command = command_forced input_path output_path
           in popen_and_report w command)"

definition repair_video_ffmpeg :: "world \<Rightarrow> string \<Rightarrow> report" where
  \<comment> \<open>\<open>4.py\<close>\<close>
  "repair_video_ffmpeg w corrupt_path =
     (if \<not> exists_path (files w) corrupt_path then not_found w
      else let output_path = output_path_fixed corrupt_path
           in if corrupt_path = output_path
              then \<lparr>outcome = IdenticalPaths, invoked = [], relayed = [],
                    files_after = files w\<rparr>
              else let command = command_copy corrupt_path output_path
                   in run_and_report w command output_path)"

section \<open>Cleaning the path the user supplies\<close>

text \<open>
  \<open>main\<close> cleans the line it reads with
  \<open>.strip().replace('"', '').replace("'", "")\<close>. \<open>str.strip()\<close> removes leading
  and trailing whitespace; below code point 256 Python's whitespace is 9 to 13, 28 to
  32, 133 and 160. \<open>replace(c, '')\<close> removes every occurrence of \<open>c\<close>.
\<close>

definition isspace :: "char \<Rightarrow> bool" where
  "isspace c = ((of_char c :: nat) \<in> {9, 10, 11, 12, 13, 28, 29, 30, 31, 32, 133, 160})"

definition strip :: "string \<Rightarrow> string" where
  "strip s = rev (dropWhile isspace (rev (dropWhile isspace s)))"

definition remove_all :: "char \<Rightarrow> string \<Rightarrow> string" where
  \<comment> \<open>\<open>s.replace(c, '')\<close> for a one-character \<open>c\<close>\<close>
  "remove_all c s = filter (\<lambda>x. x \<noteq> c) s"

definition double_quote :: char where
  "double_quote = CHR 0x22"

definition single_quote :: char where
  "single_quote = CHR 0x27"

definition clean_path :: "string \<Rightarrow> string" where
  "clean_path s = remove_all single_quote (remove_all double_quote (strip s))"

text \<open>
  The \<open>main\<close> functions. \<open>typed\<close> is the line \<open>input()\<close> returns; the result is
  \<open>None\<close> when the cleaned path is empty ("No path provided. Exiting."). \<open>4.py\<close>
  takes the path from \<open>sys.argv[1]\<close> when there is one, cleans it there, and cleans
  whichever path it has once more.
\<close>

definition main :: "world \<Rightarrow> string \<Rightarrow> report option" where
  "main w typed =
     (let input_video_path = clean_path typed
      in if input_video_path \<noteq> [] then Some (repair_video w input_video_path) else None)"

definition main_1 :: "world \<Rightarrow> string \<Rightarrow> report option" where
  "main_1 w typed =
     (let input_video_path = clean_path typed
      in if input_video_path \<noteq> [] then Some (repair_video_1 w input_video_path) else None)"

definition main_3 :: "world \<Rightarrow> string \<Rightarrow> report option" where
  "main_3 w typed =
     (let input_video_path = clean_path typed
      in if input_video_path \<noteq> [] then Some (repair_video_3 w input_video_path) else None)"

definition main_4 :: "world \<Rightarrow> string list \<Rightarrow> string \<Rightarrow> report option" where
  "main_4 w argv typed =
     (let corrupt_path = (if length argv > 1 then clean_path (argv ! 1) else typed);
          corrupt_path = clean_path corrupt_path
      in if corrupt_path \<noteq> [] then Some (repair_video_ffmpeg w corrupt_path) else None)"

section \<open>The child's output pipes while it runs\<close>

text \<open>
  \<open>video_repair.py\<close>, \<open>1.py\<close> and \<open>3.py\<close> start the child with
  \<open>stdout=subprocess.PIPE\<close> and \<open>stderr=subprocess.PIPE\<close> and then read one stream
  only: \<open>for line in process.stderr\<close>, followed by \<open>process.wait()\<close>, which reads
  nothing. \<open>4.py\<close> calls \<open>subprocess.run\<close> with \<open>capture_output=True\<close>, which
  pipes both streams and reads both until the child closes them.

  A pipe holds at most \<open>capacity\<close> bytes. The child is the list of its writes, each
  of a number of bytes to one stream, after which it exits. A write to a stream that
  is no pipe, or to a pipe the parent reads, completes, because the parent takes the
  bytes out as they arrive. A write to a pipe the parent does not read completes only
  while the bytes still fit beside what is pending there; otherwise the child blocks, and
  as no later step of the parent reads that pipe it blocks for good.
\<close>

datatype stream = Stdout | Stderr

datatype action = Write stream nat

record relay =
  piped :: "stream \<Rightarrow> bool"
  drained :: "stream \<Rightarrow> bool"

definition popen_relay :: relay where
  \<comment> \<open>\<open>video_repair.py\<close>, \<open>1.py\<close>, \<open>3.py\<close>\<close>
  "popen_relay = \<lparr>piped = (\<lambda>s. True), drained = (\<lambda>s. s = Stderr)\<rparr>"

definition run_relay :: relay where
  \<comment> \<open>\<open>4.py\<close>\<close>
  "run_relay = \<lparr>piped = (\<lambda>s. True), drained = (\<lambda>s. True)\<rparr>"

fun child_completes :: "nat \<Rightarrow> relay \<Rightarrow> (stream \<Rightarrow> nat) \<Rightarrow> action list \<Rightarrow> bool" where
  "child_completes capacity r pending [] = True"
| "child_completes capacity r pending (Write s n # rest) =
     (if piped r s \<and> \<not> drained r s
      then (if pending s + n \<le> capacity
            then child_completes capacity r (pending(s := pending s + n)) rest
            else False)
      else child_completes capacity r pending rest)"

fun written_to :: "action \<Rightarrow> stream" where
  "written_to (Write s n) = s"

text \<open>
  The specification's requirement on the relay: whatever the capacity of a pipe and
  whatever the child writes, the child never blocks on a full pipe.
\<close>

definition never_blocks :: "relay \<Rightarrow> bool" where
  "never_blocks r = (\<forall>capacity program. child_completes capacity r (\<lambda>s. 0) program)"

section \<open>Vocabulary of the specification\<close>

text \<open>
  The specification speaks of an overwrite-without-prompt flag, of stream-copy
  directives and of bitrate flags. For \<open>ffmpeg\<close> these are \<open>-y\<close>, a codec option
  (\<open>-c\<close>, \<open>-codec\<close>, with or without a stream specifier, \<open>-vcodec\<close>, \<open>-acodec\<close>)
  whose value is \<open>copy\<close>, and \<open>-b\<close> (with or without a stream specifier), \<open>-ab\<close>
  and \<open>-vb\<close>.
\<close>

definition overwrite_flag :: string where
  "overwrite_flag = ''-y''"

definition is_codec_flag :: "string \<Rightarrow> bool" where
  "is_codec_flag a =
     (a = ''-c'' \<or> take 3 a = ''-c:'' \<or> a = ''-codec'' \<or> take 7 a = ''-codec:''
      \<or> a = ''-vcodec'' \<or> a = ''-acodec'')"

fun stream_copy_directives :: "string list \<Rightarrow> nat" where
  "stream_copy_directives (a # b # rest) =
     (if is_codec_flag a \<and> b = ''copy'' then 1 else 0) + stream_copy_directives (b # rest)"
| "stream_copy_directives [a] = 0"
| "stream_copy_directives [] = 0"

definition is_bitrate_flag :: "string \<Rightarrow> bool" where
  "is_bitrate_flag a = (a = ''-b'' \<or> take 3 a = ''-b:'' \<or> a = ''-ab'' \<or> a = ''-vb'')"

definition bitrate_flags :: "string list \<Rightarrow> string list" where
  "bitrate_flags command = filter is_bitrate_flag command"

text \<open>
  The specification's description of the path clean-up, in its own words: surrounding
  whitespace and surrounding quote characters are stripped, and nothing else is removed.
\<close>

definition is_quote :: "char \<Rightarrow> bool" where
  "is_quote c = (c = double_quote \<or> c = single_quote)"

definition strip_surrounding :: "string \<Rightarrow> string" where
  "strip_surrounding s =
     rev (dropWhile (\<lambda>c. isspace c \<or> is_quote c)
       (rev (dropWhile (\<lambda>c. isspace c \<or> is_quote c) s)))"

section \<open>Example environments\<close>

text \<open>
  A file system holding one video, and three behaviours of the tool: it exits 0 without
  writing anything, it exits 0 after writing its last argument, and it exits 1 after
  writing part of it.
\<close>

definition example_files :: filesystem where
  "example_files = [''/videos/clip.mp4'' \<mapsto> 1048576]"

definition tool_silent :: tool where
  "tool_silent command fs = Exited 0 [] fs"

definition tool_writes :: tool where
  "tool_writes command fs = Exited 0 [] (fs(last command \<mapsto> 4096))"

definition tool_fails :: tool where
  "tool_fails command fs =
     Exited 1 [''Invalid data found when processing input''] (fs(last command \<mapsto> 512))"

definition example_world :: "tool option \<Rightarrow> world" where
  "example_world t = \<lparr>files = example_files, ffmpeg = t\<rparr>"

definition apostrophe_path :: string where
  "apostrophe_path = ''/videos/o'' @ [single_quote] @ ''neil.mp4''"

definition apostrophe_world :: world where
  "apostrophe_world = \<lparr>files = [apostrophe_path \<mapsto> 1048576], ffmpeg = Some tool_writes\<rparr>"

section \<open>Facts about the string and path functions\<close>

lemma rfind_ge: "- 1 \<le> rfind c s"
  by (induction s) (auto simp: Let_def)

lemma rfind_notin: "c \<notin> set s \<Longrightarrow> rfind c s = - 1"
  by (induction s) (auto simp: Let_def)

lemma rfind_append_last: "c \<notin> set b \<Longrightarrow> rfind c (a @ c # b) = int (length a)"
  by (induction a) (auto simp: Let_def rfind_notin)

text \<open>Every path splits at its last separator into a head and a separator-free tail.\<close>

lemma path_split:
  obtains h b where "p = h @ b" and "sep \<notin> set b" and "rfind sep p + 1 = int (length h)"
    and "h = [] \<or> last h = sep"
proof (cases "sep \<in> set p")
  case False
  then have "rfind sep p + 1 = int (length ([]::string))"
    by (simp add: rfind_notin)
  with False show ?thesis
    using that [of "[]" p] by simp
next
  case True
  then obtain a b where ab: "p = a @ sep # b" "sep \<notin> set b"
    using split_list_last [of sep p] by blast
  then have "rfind sep p + 1 = int (length (a @ [sep]))"
    by (simp add: rfind_append_last)
  with ab show ?thesis
    using that [of "a @ [sep]" b] by simp
qed

lemma slice_to_nonneg: "slice_to (h @ b) (int (length h)) = h"
  by (simp add: slice_to_def slice_index_def)

lemma slice_from_nonneg: "slice_from (h @ b) (int (length h)) = b"
  by (simp add: slice_from_def slice_index_def)

lemma basename_no_sep: "sep \<notin> set (basename p)"
proof -
  obtain h b where "p = h @ b" "sep \<notin> set b" "rfind sep p + 1 = int (length h)"
    by (rule path_split)
  then show ?thesis
    by (simp add: basename_def slice_from_nonneg)
qed

lemma basename_append:
  assumes "sep \<notin> set f" and "d = [] \<or> last d = sep"
  shows "basename (d @ f) = f"
proof (cases "d = []")
  case True
  with assms show ?thesis
    by (simp add: basename_def rfind_notin slice_from_def slice_index_def)
next
  case False
  with assms obtain a where a: "d = a @ [sep]"
    by (metis append_butlast_last_id)
  with assms have "rfind sep (d @ f) + 1 = int (length d)"
    by (simp add: rfind_append_last)
  then show ?thesis
    by (simp add: basename_def slice_from_nonneg)
qed

lemma skip_dots_cases:
  "skip_dots p f d = (p, []) \<or> skip_dots p f d = (slice_to p d, slice_from p d)"
proof (induction p f d rule: skip_dots.induct)
  case (1 p f d)
  then show ?case
    by (subst (1 2) skip_dots.simps) (auto simp: slice_to_def slice_index_def)
qed

lemma splitext_cases:
  "splitext p = (p, []) \<or>
   (\<exists>a b. p = a @ extsep # b \<and> splitext p = (a, extsep # b))"
proof (cases "rfind extsep p > rfind sep p")
  case False
  then show ?thesis
    by (simp add: splitext_def slice_to_def slice_index_def)
next
  case True
  moreover have "- 1 \<le> rfind sep p" by (rule rfind_ge)
  ultimately have "extsep \<in> set p"
    using rfind_notin [of extsep p] by force
  then obtain a b where ab: "p = a @ extsep # b" "extsep \<notin> set b"
    using split_list_last [of extsep p] by blast
  then have d: "rfind extsep p = int (length a)"
    by (simp add: rfind_append_last)
  have "slice_to p (int (length a)) = a" "slice_from p (int (length a)) = extsep # b"
    using ab by (simp_all add: slice_to_def slice_from_def slice_index_def)
  with True d ab(1) skip_dots_cases [of p "rfind sep p + 1" "int (length a)"]
  show ?thesis
    by (auto simp: splitext_def)
qed

lemma splitext_concat: "splitext p = (r, e) \<Longrightarrow> r @ e = p"
  using splitext_cases [of p] by auto

lemma splitext_ext: "splitext p = (r, e) \<Longrightarrow> e = [] \<or> hd e = extsep"
  using splitext_cases [of p] by auto

lemma join_plain:
  assumes "sep \<notin> set f" and "f \<noteq> []"
  shows "\<exists>d'. join d f = d' @ f \<and> (d' = [] \<or> last d' = sep)"
proof -
  from assms have ns: "\<not> startswith f sep"
    by (cases f) (auto simp: startswith_def)
  show ?thesis
  proof (cases "d = [] \<or> endswith d sep")
    case True
    then have "d = [] \<or> last d = sep"
      by (cases d rule: rev_cases) (auto simp: endswith_def)
    with True ns show ?thesis
      by (auto simp: join_def)
  next
    case False
    with ns have "join d f = (d @ [sep]) @ f"
      by (simp add: join_def)
    then show ?thesis
      by (metis last_snoc)
  qed
qed

lemma basename_join:
  assumes "sep \<notin> set f" and "f \<noteq> []"
  shows "basename (join d f) = f"
proof -
  from join_plain [OF assms, of d] obtain d' where
    "join d f = d' @ f" "d' = [] \<or> last d' = sep" by blast
  then show ?thesis
    using basename_append [OF assms(1), of d'] by simp
qed

lemma dirname_head:
  assumes "sep \<notin> set b" and "h = [] \<or> last h = sep"
  shows "dirname (h @ b) =
    (if h \<noteq> [] \<and> h \<noteq> replicate (length h) sep then rstrip_chr sep h else h)"
proof -
  have "rfind sep (h @ b) + 1 = int (length h)"
  proof (cases "h = []")
    case True
    with assms show ?thesis by (simp add: rfind_notin)
  next
    case False
    with assms obtain a where "h = a @ [sep]"
      by (metis append_butlast_last_id)
    with assms show ?thesis by (simp add: rfind_append_last)
  qed
  then show ?thesis
    by (simp add: dirname_def slice_to_nonneg)
qed

lemma dirname_shape:
  "dirname p = [] \<or> dirname p = replicate (length (dirname p)) sep \<or> last (dirname p) \<noteq> sep"
proof -
  obtain h b where hb: "p = h @ b" "rfind sep p + 1 = int (length h)"
    by (rule path_split)
  then have head: "slice_to p (rfind sep p + 1) = h"
    by (simp add: slice_to_nonneg)
  show ?thesis
  proof (cases "h \<noteq> [] \<and> h \<noteq> replicate (length h) sep")
    case False
    with head show ?thesis
      by (auto simp: dirname_def Let_def)
  next
    case True
    then have d: "dirname p = rstrip_chr sep h"
      using head by (simp add: dirname_def Let_def)
    from True have "\<exists>x\<in>set (rev h). x \<noteq> sep"
      by (metis replicate_eqI set_rev)
    then have ne: "dropWhile (\<lambda>x. x = sep) (rev h) \<noteq> []"
      by simp
    then have "hd (dropWhile (\<lambda>x. x = sep) (rev h)) \<noteq> sep"
      using hd_dropWhile by blast
    with ne have "last (rstrip_chr sep h) \<noteq> sep"
      by (simp add: rstrip_chr_def last_rev)
    with d show ?thesis by simp
  qed
qed

lemma dirname_join:
  assumes "sep \<notin> set f" and "f \<noteq> []"
  shows "dirname (join (dirname p) f) = dirname p"
proof -
  from assms have ns: "\<not> startswith f sep"
    by (cases f) (auto simp: startswith_def)
  define d where "d = dirname p"
  consider "d = []" | "d \<noteq> []" "d = replicate (length d) sep" | "d \<noteq> []" "last d \<noteq> sep"
    using dirname_shape [of p] d_def by blast
  then have "dirname (join d f) = d"
  proof cases
    case 1
    with ns assms show ?thesis
      by (simp add: join_def dirname_def rfind_notin slice_to_def slice_index_def)
  next
    case 2
    then obtain a where a: "d = a @ [sep]"
      by (metis append_butlast_last_id last_replicate length_0_conv)
    with ns have j: "join d f = d @ f"
      by (simp add: join_def endswith_def)
    from a have "d = [] \<or> last d = sep"
      by simp
    with j 2 show ?thesis
      using dirname_head [of f d] assms by simp
  next
    case 3
    with ns have j: "join d f = (d @ [sep]) @ f"
      by (cases d rule: rev_cases) (auto simp: join_def endswith_def)
    have "d @ [sep] \<noteq> replicate (length (d @ [sep])) sep"
    proof
      assume "d @ [sep] = replicate (length (d @ [sep])) sep"
      then have "set (d @ [sep]) \<subseteq> {sep}"
        by (metis set_replicate_conv_if subset_insertI order_refl)
      then have "set d \<subseteq> {sep}"
        by simp
      with 3 show False
        by (metis last_in_set singletonD subsetD)
    qed
    moreover from 3 have "rstrip_chr sep (d @ [sep]) = d"
      by (cases d rule: rev_cases) (auto simp: rstrip_chr_def)
    ultimately show ?thesis
      unfolding j using dirname_head [of f "d @ [sep]"] assms by simp
  qed
  then show ?thesis by (simp add: d_def)
qed

lemma slice_one:
  assumes "0 \<le> i" and "nat i < length p"
  shows "slice p i (i + 1) = [p ! nat i]"
proof -
  from assms have "slice_index i p = nat i" "slice_index (i + 1) p = Suc (nat i)"
    by (simp_all add: slice_index_def nat_add_distrib)
  with assms show ?thesis
    by (simp add: slice_def take_Suc_conv_app_nth)
qed

lemma skip_dots_found:
  "0 \<le> f \<Longrightarrow> f \<le> k \<Longrightarrow> k < d \<Longrightarrow> nat k < length p \<Longrightarrow> p ! nat k \<noteq> extsep
   \<Longrightarrow> skip_dots p f d = (slice_to p d, slice_from p d)"
proof (induction p f d rule: skip_dots.induct)
  case (1 p f d)
  from "1.prems" have one: "slice p f (f + 1) = [p ! nat f]"
    by (intro slice_one) auto
  show ?case
  proof (cases "p ! nat f = extsep")
    case False
    with "1.prems" one show ?thesis
      by (subst skip_dots.simps) simp
  next
    case True
    with "1.prems" have "f \<noteq> k" by auto
    with "1.prems" have "skip_dots p (f + 1) d = (slice_to p d, slice_from p d)"
      using True one by (intro "1.IH") auto
    with "1.prems" True one show ?thesis
      by (subst skip_dots.simps) simp
  qed
qed

lemma splitext_mp4:
  assumes "sep \<notin> set r" and "d = [] \<or> last d = sep"
  shows "splitext (d @ r @ ''_noncorrupt.mp4'') = (d @ r @ ''_noncorrupt'', ''.mp4'')"
proof -
  let ?p = "d @ r @ ''_noncorrupt.mp4''"
  let ?a = "d @ r @ ''_noncorrupt''"
  have p: "?p = ?a @ extsep # ''mp4''"
    by (simp add: extsep_def)
  have dot: "rfind extsep ?p = int (length ?a)"
    unfolding p by (rule rfind_append_last) (simp add: extsep_def)
  have sp: "rfind sep ?p + 1 = int (length d)"
  proof (cases "d = []")
    case True
    with assms show ?thesis by (simp add: rfind_notin sep_def)
  next
    case False
    with assms obtain a where a: "d = a @ [sep]"
      by (metis append_butlast_last_id)
    have "rfind sep (a @ sep # r @ ''_noncorrupt.mp4'') = int (length a)"
      using assms by (intro rfind_append_last) (simp add: sep_def)
    with a show ?thesis by simp
  qed
  define k where "k = int (length (d @ r))"
  have "?p ! length (d @ r) = ((d @ r) @ CHR ''_'' # ''noncorrupt.mp4'') ! length (d @ r)"
    by simp
  also have "\<dots> = CHR ''_''"
    by (rule nth_append_length)
  finally have "?p ! length (d @ r) = CHR ''_''" .
  moreover have "nat k = length (d @ r)"
    unfolding k_def by (rule nat_int)
  ultimately have k: "?p ! nat k \<noteq> extsep"
    by (simp add: extsep_def)
  have "skip_dots ?p (rfind sep ?p + 1) (rfind extsep ?p)
        = (slice_to ?p (rfind extsep ?p), slice_from ?p (rfind extsep ?p))"
    using k unfolding sp dot
    by (intro skip_dots_found [where k = k]) (simp_all add: k_def)
  moreover have "slice_to ?p (int (length ?a)) = ?a" "slice_from ?p (int (length ?a)) = ''.mp4''"
    unfolding p by (simp_all only: slice_to_nonneg slice_from_nonneg) (simp add: extsep_def)
  moreover from sp dot have "rfind extsep ?p > rfind sep ?p"
    by simp
  ultimately show ?thesis
    unfolding splitext_def Let_def dot by simp
qed

lemma output_filename_plain:
  assumes "splitext (basename p) = (r, e)" and "sep \<notin> set s"
  shows "sep \<notin> set (r @ s @ e)"
proof -
  from assms(1) have "r @ e = basename p"
    by (rule splitext_concat)
  then have "sep \<notin> set (r @ e)"
    using basename_no_sep [of p] by simp
  with assms(2) show ?thesis by simp
qed

lemma output_root_plain:
  assumes "splitext (basename p) = (r, e)"
  shows "sep \<notin> set r"
proof -
  from assms have "r @ e = basename p"
    by (rule splitext_concat)
  then have "sep \<notin> set (r @ e)"
    using basename_no_sep [of p] by simp
  then show ?thesis by simp
qed

lemma output_noncorrupt_neq: "output_path_noncorrupt p \<noteq> p"
proof
  assume eq: "output_path_noncorrupt p = p"
  obtain r e where re: "splitext (basename p) = (r, e)"
    by (cases "splitext (basename p)")
  then have "sep \<notin> set (r @ ''_noncorrupt'' @ e)"
    by (rule output_filename_plain) (simp add: sep_def)
  then have "basename (join (dirname p) (r @ ''_noncorrupt'' @ e)) = r @ ''_noncorrupt'' @ e"
    by (rule basename_join) simp
  with re eq have "basename p = r @ ''_noncorrupt'' @ e"
    by (simp add: output_path_noncorrupt_def)
  moreover from re have "r @ e = basename p"
    by (rule splitext_concat)
  ultimately have "length (r @ e) = length (r @ ''_noncorrupt'' @ e)"
    by simp
  then show False by simp
qed

lemma output_fixed_neq: "output_path_fixed p \<noteq> p"
proof
  assume eq: "output_path_fixed p = p"
  obtain r e where re: "splitext (basename p) = (r, e)"
    by (cases "splitext (basename p)")
  then have "sep \<notin> set (r @ ''.fixed'' @ e)"
    by (rule output_filename_plain) (simp add: sep_def)
  then have "basename (join (dirname p) (r @ ''.fixed'' @ e)) = r @ ''.fixed'' @ e"
    by (rule basename_join) simp
  with re eq have "basename p = r @ ''.fixed'' @ e"
    by (simp add: output_path_fixed_def)
  moreover from re have "r @ e = basename p"
    by (rule splitext_concat)
  ultimately have "length (r @ e) = length (r @ ''.fixed'' @ e)"
    by simp
  then show False by simp
qed

lemma output_forced_neq: "output_path_forced_mp4 p \<noteq> p"
proof
  assume eq: "output_path_forced_mp4 p = p"
  obtain r e where re: "splitext (basename p) = (r, e)"
    by (cases "splitext (basename p)")
  then have "sep \<notin> set r"
    by (rule output_root_plain)
  then have "sep \<notin> set (r @ ''_noncorrupt.mp4'')"
    by (simp add: sep_def)
  then have "basename (join (dirname p) (r @ ''_noncorrupt.mp4'')) = r @ ''_noncorrupt.mp4''"
    by (intro basename_join) simp_all
  with re eq have "basename p = r @ ''_noncorrupt.mp4''"
    by (simp add: output_path_forced_mp4_def)
  moreover from re have "r @ e = basename p"
    by (rule splitext_concat)
  ultimately have "e = ''_noncorrupt.mp4''"
    by simp
  with splitext_ext [OF re] show False
    by (simp add: extsep_def)
qed

lemma dirname_output_noncorrupt: "dirname (output_path_noncorrupt p) = dirname p"
proof -
  obtain r e where re: "splitext (basename p) = (r, e)"
    by (cases "splitext (basename p)")
  then have "sep \<notin> set (r @ ''_noncorrupt'' @ e)"
    by (rule output_filename_plain) (simp add: sep_def)
  then have "dirname (join (dirname p) (r @ ''_noncorrupt'' @ e)) = dirname p"
    by (rule dirname_join) simp
  with re show ?thesis
    by (simp add: output_path_noncorrupt_def)
qed

lemma dirname_output_fixed: "dirname (output_path_fixed p) = dirname p"
proof -
  obtain r e where re: "splitext (basename p) = (r, e)"
    by (cases "splitext (basename p)")
  then have "sep \<notin> set (r @ ''.fixed'' @ e)"
    by (rule output_filename_plain) (simp add: sep_def)
  then have "dirname (join (dirname p) (r @ ''.fixed'' @ e)) = dirname p"
    by (rule dirname_join) simp
  with re show ?thesis
    by (simp add: output_path_fixed_def)
qed

lemma dirname_output_forced: "dirname (output_path_forced_mp4 p) = dirname p"
proof -
  obtain r e where re: "splitext (basename p) = (r, e)"
    by (cases "splitext (basename p)")
  then have "sep \<notin> set r"
    by (rule output_root_plain)
  then have "sep \<notin> set (r @ ''_noncorrupt.mp4'')"
    by (simp add: sep_def)
  then have "dirname (join (dirname p) (r @ ''_noncorrupt.mp4'')) = dirname p"
    by (intro dirname_join) simp_all
  with re show ?thesis
    by (simp add: output_path_forced_mp4_def)
qed

lemma splitext_output_forced:
  "snd (splitext (output_path_forced_mp4 p)) = ''.mp4''"
proof -
  obtain r e where re: "splitext (basename p) = (r, e)"
    by (cases "splitext (basename p)")
  then have nr: "sep \<notin> set r"
    by (rule output_root_plain)
  then have ns: "sep \<notin> set (r @ ''_noncorrupt.mp4'')"
    by (simp add: sep_def)
  then have "\<exists>d'. join (dirname p) (r @ ''_noncorrupt.mp4'') = d' @ r @ ''_noncorrupt.mp4''
      \<and> (d' = [] \<or> last d' = sep)"
    using join_plain [of "r @ ''_noncorrupt.mp4''" "dirname p"] by simp
  then obtain d' where d': "join (dirname p) (r @ ''_noncorrupt.mp4'') = d' @ r @ ''_noncorrupt.mp4''"
      "d' = [] \<or> last d' = sep"
    by blast
  from nr have "splitext (d' @ r @ ''_noncorrupt.mp4'') = (d' @ r @ ''_noncorrupt'', ''.mp4'')"
    using d'(2) by (rule splitext_mp4)
  with re d'(1) show ?thesis
    by (simp add: output_path_forced_mp4_def)
qed

section \<open>Facts about running the tool and cleaning the path\<close>

lemma clip_noncorrupt: "output_path_noncorrupt ''/videos/clip.mp4'' = ''/videos/clip_noncorrupt.mp4''"
  by code_simp

lemma clip_fixed: "output_path_fixed ''/videos/clip.mp4'' = ''/videos/clip.fixed.mp4''"
  by code_simp

lemma popen_tool_not_found:
  "outcome (popen_and_report w c) = ToolNotFound \<longleftrightarrow> ffmpeg w = None"
  by (simp add: popen_and_report_def split: option.splits run_result.splits)

lemma run_tool_not_found:
  "outcome (run_and_report w c out) = ToolNotFound \<longleftrightarrow> ffmpeg w = None"
  by (simp add: run_and_report_def split: option.splits run_result.splits)

lemma run_not_identical: "outcome (run_and_report w c out) \<noteq> IdenticalPaths"
  by (simp add: run_and_report_def split: option.splits run_result.splits)

lemma popen_outcome:
  assumes "ffmpeg w = Some process" and "process command (files w) = Exited rc err fs'"
  shows "outcome (popen_and_report w command) = (if rc = 0 then Succeeded else Failed rc)"
  using assms by (simp add: popen_and_report_def)

lemma run_outcome:
  assumes "ffmpeg w = Some process" and "process command (files w) = Exited rc err fs'"
  shows "outcome (run_and_report w command out) =
    (if rc = 0 \<and> (\<exists>n. fs' out = Some n \<and> 0 < n) then Succeeded else Failed rc)"
  using assms by (auto simp: run_and_report_def exists_path_def getsize_def split: option.splits)

lemma apostrophe_clean: "clean_path apostrophe_path = ''/videos/oneil.mp4''"
  by code_simp

lemma apostrophe_surrounding: "strip_surrounding apostrophe_path = apostrophe_path"
  by code_simp

section \<open>Properties stated by the specification\<close>

subsection \<open>Outcome classification\<close>

text \<open>
  C1, as amended. In every run in which the child is spawned and awaited (the input
  exists, the tool is resolved and the child exits with return code \<open>rc\<close>):
  \<open>video_repair.py\<close>, \<open>1.py\<close> and \<open>3.py\<close> report \<open>Succeeded\<close> exactly when
  \<open>rc = 0\<close>, whatever is on disk; \<open>4.py\<close> reports \<open>Succeeded\<close> exactly when
  \<open>rc = 0\<close> and the output path exists with a size above zero at termination. Every
  other run that was awaited is \<open>Failed rc\<close>.
\<close>

theorem outcome_classification:
  assumes "exists_path (files w) p" and "ffmpeg w = Some process"
  shows "(\<forall>rc err fs'.
            process (command_remux p (output_path_noncorrupt p)) (files w) = Exited rc err fs'
            \<longrightarrow> outcome (repair_video w p) = (if rc = 0 then Succeeded else Failed rc))
       \<and> (\<forall>rc err fs'.
            process (command_reencode p (output_path_noncorrupt p)) (files w) = Exited rc err fs'
            \<longrightarrow> outcome (repair_video_1 w p) = (if rc = 0 then Succeeded else Failed rc))
       \<and> (\<forall>rc err fs'.
            process (command_forced p (output_path_forced_mp4 p)) (files w) = Exited rc err fs'
            \<longrightarrow> outcome (repair_video_3 w p) = (if rc = 0 then Succeeded else Failed rc))
       \<and> (\<forall>rc err fs'.
            process (command_copy p (output_path_fixed p)) (files w) = Exited rc err fs'
            \<longrightarrow> outcome (repair_video_ffmpeg w p) =
                 (if rc = 0 \<and> (\<exists>n. fs' (output_path_fixed p) = Some n \<and> 0 < n)
                  then Succeeded else Failed rc))"
proof (intro conjI allI impI)
  fix rc err fs'
  assume "process (command_remux p (output_path_noncorrupt p)) (files w) = Exited rc err fs'"
  with assms show "outcome (repair_video w p) = (if rc = 0 then Succeeded else Failed rc)"
    by (simp add: repair_video_def popen_outcome)
next
  fix rc err fs'
  assume "process (command_reencode p (output_path_noncorrupt p)) (files w) = Exited rc err fs'"
  with assms show "outcome (repair_video_1 w p) = (if rc = 0 then Succeeded else Failed rc)"
    by (simp add: repair_video_1_def popen_outcome)
next
  fix rc err fs'
  assume "process (command_forced p (output_path_forced_mp4 p)) (files w) = Exited rc err fs'"
  with assms show "outcome (repair_video_3 w p) = (if rc = 0 then Succeeded else Failed rc)"
    by (simp add: repair_video_3_def popen_outcome)
next
  fix rc err fs'
  assume "process (command_copy p (output_path_fixed p)) (files w) = Exited rc err fs'"
  with assms(2) have "outcome (run_and_report w (command_copy p (output_path_fixed p)) (output_path_fixed p)) =
      (if rc = 0 \<and> (\<exists>n. fs' (output_path_fixed p) = Some n \<and> 0 < n) then Succeeded else Failed rc)"
    by (rule run_outcome)
  with assms(1) output_fixed_neq [of p]
  show "outcome (repair_video_ffmpeg w p) =
      (if rc = 0 \<and> (\<exists>n. fs' (output_path_fixed p) = Some n \<and> 0 < n) then Succeeded else Failed rc)"
    by (simp add: repair_video_ffmpeg_def Let_def)
qed

theorem outcome_classification_witness:
  "outcome (repair_video (example_world (Some tool_fails)) ''/videos/clip.mp4'') = Failed 1
   \<and> outcome (repair_video_ffmpeg (example_world (Some tool_fails)) ''/videos/clip.mp4'')
       = Failed 1
   \<and> outcome (repair_video_1 (example_world (Some tool_writes)) ''/videos/clip.mp4'') = Succeeded
   \<and> outcome (repair_video_3 (example_world (Some tool_writes)) ''/videos/clip.mp4'') = Succeeded
   \<and> outcome (repair_video_ffmpeg (example_world (Some tool_writes)) ''/videos/clip.mp4'')
       = Succeeded
   \<and> outcome (repair_video_ffmpeg (example_world (Some tool_silent)) ''/videos/clip.mp4'')
       = Failed 0"
proof -
  have e: "exists_path (files (example_world t)) ''/videos/clip.mp4''" for t
    by (simp add: example_world_def example_files_def exists_path_def)
  have t: "ffmpeg (example_world (Some t)) = Some t" for t
    by (simp add: example_world_def)
  have n: "files (example_world t) ''/videos/clip.fixed.mp4'' = None" for t
    by (simp add: example_world_def example_files_def)
  show ?thesis
    using outcome_classification [OF e t, of tool_fails]
      outcome_classification [OF e t, of tool_writes]
      outcome_classification [OF e t, of tool_silent]
    by (simp add: tool_fails_def tool_writes_def tool_silent_def command_copy_def clip_fixed n)
qed

text \<open>
  C1 as stated fails for \<open>video_repair.py\<close>: when the tool exits 0 and writes
  nothing, the run is reported as \<open>Succeeded\<close> although no file exists at the output
  path.
\<close>

theorem exit_zero_without_output_counterexample:
  "outcome (repair_video (example_world (Some tool_silent)) ''/videos/clip.mp4'') = Succeeded
   \<and> files_after (repair_video (example_world (Some tool_silent)) ''/videos/clip.mp4'')
        (output_path_noncorrupt ''/videos/clip.mp4'') = None"
  by (simp add: repair_video_def popen_and_report_def example_world_def example_files_def
      exists_path_def tool_silent_def clip_noncorrupt)

subsection \<open>The derived output path\<close>

text \<open>
  C2. For every input path the derived output path differs from the input path, for
  each of the three derivations, and \<open>4.py\<close> never reports \<open>IdenticalPaths\<close>: its
  abort branch is unreachable.
\<close>

theorem output_never_input:
  "output_path_noncorrupt p \<noteq> p \<and> output_path_fixed p \<noteq> p \<and> output_path_forced_mp4 p \<noteq> p
   \<and> outcome (repair_video_ffmpeg w p) \<noteq> IdenticalPaths"
proof -
  have "outcome (repair_video_ffmpeg w p) \<noteq> IdenticalPaths"
    using output_fixed_neq [of p] run_not_identical
    by (simp add: repair_video_ffmpeg_def not_found_def Let_def)
  then show ?thesis
    by (simp add: output_noncorrupt_neq output_fixed_neq output_forced_neq)
qed

text \<open>
  C10. The derived output path has the directory component of the input path:
  \<open>dirname\<close> of the output equals \<open>dirname\<close> of the input, for each derivation.
\<close>

theorem output_in_input_directory:
  "dirname (output_path_noncorrupt p) = dirname p
   \<and> dirname (output_path_forced_mp4 p) = dirname p
   \<and> dirname (output_path_fixed p) = dirname p"
  by (simp add: dirname_output_noncorrupt dirname_output_forced dirname_output_fixed)

text \<open>
  C7. Under the forced-format strategy (\<open>3.py\<close>) the extension of the derived output
  path, as \<open>splitext\<close> reads it, is \<open>.mp4\<close> for every input path, and the path ends
  with it.
\<close>

theorem forced_extension_mp4:
  "snd (splitext (output_path_forced_mp4 p)) = ''.mp4''
   \<and> output_path_forced_mp4 p = fst (splitext (output_path_forced_mp4 p)) @ ''.mp4''"
proof -
  have "fst (splitext (output_path_forced_mp4 p)) @ snd (splitext (output_path_forced_mp4 p))
        = output_path_forced_mp4 p"
    by (rule splitext_concat) simp
  then show ?thesis
    by (simp add: splitext_output_forced)
qed

text \<open>
  C6, as amended. For the input \<open>/videos/clip.mp4\<close> the remux scripts derive
  \<open>/videos/clip_noncorrupt.mp4\<close> (\<open>video_repair.py\<close>) and \<open>/videos/clip.fixed.mp4\<close>
  (\<open>4.py\<close>); each argument list holds exactly one stream-copy directive and no
  bitrate flag.
\<close>

theorem clip_remux_example:
  "output_path_noncorrupt ''/videos/clip.mp4'' = ''/videos/clip_noncorrupt.mp4''
   \<and> stream_copy_directives
        (command_remux ''/videos/clip.mp4'' (output_path_noncorrupt ''/videos/clip.mp4'')) = 1
   \<and> bitrate_flags
        (command_remux ''/videos/clip.mp4'' (output_path_noncorrupt ''/videos/clip.mp4'')) = []
   \<and> output_path_fixed ''/videos/clip.mp4'' = ''/videos/clip.fixed.mp4''
   \<and> stream_copy_directives
        (command_copy ''/videos/clip.mp4'' (output_path_fixed ''/videos/clip.mp4'')) = 1
   \<and> bitrate_flags
        (command_copy ''/videos/clip.mp4'' (output_path_fixed ''/videos/clip.mp4'')) = []"
  by (simp add: clip_noncorrupt clip_fixed command_remux_def command_copy_def
      is_codec_flag_def is_bitrate_flag_def bitrate_flags_def)

text \<open>
  C6 as stated fails: neither remux script derives \<open>/videos/clip_repaired.mp4\<close>.
\<close>

theorem clip_repaired_counterexample:
  "output_path_noncorrupt ''/videos/clip.mp4'' \<noteq> ''/videos/clip_repaired.mp4''
   \<and> output_path_fixed ''/videos/clip.mp4'' \<noteq> ''/videos/clip_repaired.mp4''"
  by (simp add: clip_noncorrupt clip_fixed)

subsection \<open>Errors before and at the spawn\<close>

text \<open>
  C3. When the input path does not exist, each script reports \<open>InputNotFound\<close> and
  hands no argument list to \<open>subprocess\<close>.
\<close>

theorem missing_input_spawns_nothing:
  assumes "\<not> exists_path (files w) p"
  shows "outcome (repair_video w p) = InputNotFound \<and> invoked (repair_video w p) = []
       \<and> outcome (repair_video_1 w p) = InputNotFound \<and> invoked (repair_video_1 w p) = []
       \<and> outcome (repair_video_3 w p) = InputNotFound \<and> invoked (repair_video_3 w p) = []
       \<and> outcome (repair_video_ffmpeg w p) = InputNotFound
       \<and> invoked (repair_video_ffmpeg w p) = []"
  using assms
  by (simp add: repair_video_def repair_video_1_def repair_video_3_def repair_video_ffmpeg_def
      not_found_def)

theorem missing_input_spawns_nothing_witness:
  "outcome (repair_video (example_world (Some tool_writes)) ''/videos/missing.mp4'') = InputNotFound
   \<and> invoked (repair_video (example_world (Some tool_writes)) ''/videos/missing.mp4'') = []
   \<and> outcome (repair_video_ffmpeg (example_world (Some tool_writes)) ''/videos/missing.mp4'')
       = InputNotFound
   \<and> invoked (repair_video_ffmpeg (example_world (Some tool_writes)) ''/videos/missing.mp4'') = []"
proof -
  have "\<not> exists_path (files (example_world (Some tool_writes))) ''/videos/missing.mp4''"
    by (simp add: exists_path_def example_world_def example_files_def)
  from missing_input_spawns_nothing [OF this] show ?thesis
    by simp
qed

text \<open>
  C4. Each script reports \<open>ToolNotFound\<close> exactly when the input exists and the
  tool cannot be resolved; \<open>ToolNotFound\<close> is an outcome other than \<open>Failed rc\<close>,
  which a resolved tool's non-zero return code produces.
\<close>

theorem missing_tool_reported:
  "(outcome (repair_video w p) = ToolNotFound \<longleftrightarrow> exists_path (files w) p \<and> ffmpeg w = None)
   \<and> (outcome (repair_video_1 w p) = ToolNotFound \<longleftrightarrow> exists_path (files w) p \<and> ffmpeg w = None)
   \<and> (outcome (repair_video_3 w p) = ToolNotFound \<longleftrightarrow> exists_path (files w) p \<and> ffmpeg w = None)
   \<and> (outcome (repair_video_ffmpeg w p) = ToolNotFound
        \<longleftrightarrow> exists_path (files w) p \<and> ffmpeg w = None)
   \<and> ToolNotFound \<noteq> Failed rc"
proof -
  have "outcome (repair_video_ffmpeg w p) = ToolNotFound
        \<longleftrightarrow> exists_path (files w) p \<and> ffmpeg w = None"
    using output_fixed_neq [of p]
    by (simp add: repair_video_ffmpeg_def not_found_def Let_def run_tool_not_found)
  then show ?thesis
    by (simp add: repair_video_def repair_video_1_def repair_video_3_def not_found_def
        popen_tool_not_found)
qed

theorem missing_tool_reported_witness:
  "outcome (repair_video (example_world None) ''/videos/clip.mp4'') = ToolNotFound
   \<and> outcome (repair_video_ffmpeg (example_world None) ''/videos/clip.mp4'') = ToolNotFound
   \<and> outcome (repair_video (example_world (Some tool_fails)) ''/videos/clip.mp4'') \<noteq> ToolNotFound"
  using missing_tool_reported [of "example_world None" "''/videos/clip.mp4''"]
    missing_tool_reported [of "example_world (Some tool_fails)" "''/videos/clip.mp4''"]
  by (simp add: example_world_def example_files_def exists_path_def)

subsection \<open>The argument lists\<close>

text \<open>
  C5. The argument lists of \<open>video_repair.py\<close>, \<open>1.py\<close> and \<open>3.py\<close> hold the
  overwrite flag \<open>-y\<close>. The argument list \<open>4.py\<close> builds for the existing input
  \<open>/videos/clip.mp4\<close> does not: the claim fails there.
\<close>

theorem copy_command_lacks_overwrite_flag:
  "overwrite_flag \<in> set (command_remux input_path output_path)
   \<and> overwrite_flag \<in> set (command_reencode input_path output_path)
   \<and> overwrite_flag \<in> set (command_forced input_path output_path)
   \<and> invoked (repair_video_ffmpeg (example_world t) ''/videos/clip.mp4'') =
       [[''ffmpeg'', ''-i'', ''/videos/clip.mp4'', ''-c'', ''copy'', ''/videos/clip.fixed.mp4'']]
   \<and> overwrite_flag \<notin> set (command_copy ''/videos/clip.mp4'' (output_path_fixed ''/videos/clip.mp4''))"
proof -
  have "invoked (run_and_report w c out) = [c]" for w c out
    by (simp add: run_and_report_def split: option.splits run_result.splits)
  then have "invoked (repair_video_ffmpeg (example_world t) ''/videos/clip.mp4'') =
       [[''ffmpeg'', ''-i'', ''/videos/clip.mp4'', ''-c'', ''copy'', ''/videos/clip.fixed.mp4'']]"
    by (simp add: repair_video_ffmpeg_def example_world_def example_files_def exists_path_def
        clip_fixed command_copy_def Let_def)
  then show ?thesis
    by (simp add: overwrite_flag_def command_remux_def command_reencode_def command_forced_def
        command_copy_def clip_fixed)
qed

subsection \<open>The path the user supplies\<close>

text \<open>
  C8. The path handed to the orchestrator should be the input with its surrounding
  whitespace and surrounding quote characters stripped, and nothing else removed. The
  code removes every quote character instead: the file \<open>/videos/o'neil.mp4\<close> exists,
  the user gives exactly that path, at the prompt or on the command line, and \<open>main\<close>
  looks for \<open>/videos/oneil.mp4\<close> and reports \<open>InputNotFound\<close>, where the path with
  only its surroundings stripped is repaired.
\<close>

theorem interior_quote_removed:
  "strip_surrounding apostrophe_path = apostrophe_path
   \<and> clean_path apostrophe_path = ''/videos/oneil.mp4''
   \<and> clean_path apostrophe_path \<noteq> strip_surrounding apostrophe_path
   \<and> map_option outcome (main apostrophe_world apostrophe_path) = Some InputNotFound
   \<and> map_option outcome (main_4 apostrophe_world [''4.py'', apostrophe_path] [])
       = Some InputNotFound
   \<and> outcome (repair_video apostrophe_world (strip_surrounding apostrophe_path)) = Succeeded"
proof -
  have neq: "clean_path apostrophe_path \<noteq> strip_surrounding apostrophe_path"
    unfolding apostrophe_clean apostrophe_surrounding
    by (simp add: apostrophe_path_def single_quote_def)
  have missing: "\<not> exists_path (files apostrophe_world) ''/videos/oneil.mp4''"
    by (simp add: exists_path_def apostrophe_world_def apostrophe_path_def single_quote_def)
  have again: "clean_path ''/videos/oneil.mp4'' = ''/videos/oneil.mp4''"
    by code_simp
  have "map_option outcome (main apostrophe_world apostrophe_path) = Some InputNotFound"
    unfolding main_def apostrophe_clean using missing
    by (simp add: repair_video_def not_found_def)
  moreover have "map_option outcome (main_4 apostrophe_world [''4.py'', apostrophe_path] [])
      = Some InputNotFound"
    unfolding main_4_def using missing
    by (simp add: apostrophe_clean again repair_video_ffmpeg_def not_found_def)
  moreover have "outcome (repair_video apostrophe_world (strip_surrounding apostrophe_path))
      = Succeeded"
    unfolding apostrophe_surrounding
    by (simp add: repair_video_def exists_path_def apostrophe_world_def popen_and_report_def
        tool_writes_def Let_def)
  ultimately show ?thesis
    using neq by (simp add: apostrophe_clean apostrophe_surrounding)
qed

subsection \<open>Draining the child's output\<close>

lemma run_relay_completes: "child_completes capacity run_relay pending program"
proof (induction program arbitrary: pending)
  case Nil
  show ?case by simp
next
  case (Cons a program)
  then show ?case
    by (cases a) (simp add: run_relay_def)
qed

lemma popen_relay_stderr_completes:
  "list_all (\<lambda>a. written_to a = Stderr) program
   \<Longrightarrow> child_completes capacity popen_relay pending program"
proof (induction program arbitrary: pending)
  case Nil
  show ?case by simp
next
  case (Cons a program)
  then show ?case
    by (cases a) (simp add: popen_relay_def)
qed

text \<open>
  C9. While the child is alive the parent should keep draining the child's output
  streams, so that the child never blocks on a full pipe. \<open>4.py\<close> does, for every
  capacity and every child. \<open>video_repair.py\<close>, \<open>1.py\<close> and \<open>3.py\<close> do not: they
  pipe the child's standard output and never read it, so a child that writes 65537
  bytes there, one more than a pipe of 65536 bytes holds, blocks for good.
\<close>

theorem undrained_stdout_blocks:
  "never_blocks run_relay
   \<and> \<not> never_blocks popen_relay
   \<and> \<not> child_completes 65536 popen_relay (\<lambda>s. 0) [Write Stdout 65537]"
proof -
  have blocked: "\<not> child_completes 65536 popen_relay (\<lambda>s. 0) [Write Stdout 65537]"
    by (simp add: popen_relay_def)
  then have "\<not> never_blocks popen_relay"
    unfolding never_blocks_def by blast
  moreover have "never_blocks run_relay"
    unfolding never_blocks_def by (intro allI run_relay_completes)
  ultimately show ?thesis
    using blocked by simp
qed

end
